theory Spec2Isabelle
  imports Main "HOL-Library.Sublist"
begin

section \<open>Python errors\<close>

text \<open>
  Every exception the modelled functions can raise is a value of this type; a function
  that may raise returns \<open>py_error + 'a\<close> with \<open>Inl\<close> for the exception.
\<close>

datatype py_error = IndexError | KeyError | ValueError | IntegrityError

section \<open>Rate limiter (app/core/rate\_limiting.py)\<close>

text \<open>
  A \<open>datetime\<close> is the number of microseconds since the epoch and a \<open>timedelta\<close>
  a number of microseconds, both unbounded integers. \<open>timedelta.seconds\<close> is the
  seconds component of the normalised delta (days, seconds, microseconds), so it lies
  between 0 and 86399 also for a negative delta.
\<close>

type_synonym datetime = int
type_synonym timedelta = int

definition td_of_seconds :: "int \<Rightarrow> timedelta" where
  "td_of_seconds s = s * 1000000"

definition td_of_minutes :: "int \<Rightarrow> timedelta" where
  "td_of_minutes m = m * 60 * 1000000"

definition td_seconds :: "timedelta \<Rightarrow> int" where
  "td_seconds d = (d mod 86400000000) div 1000000"

text \<open>
  The two f-strings returned to the caller and the blacklist reason are kept as
  structured values, one constructor per f-string, holding the interpolated fields.
\<close>

datatype reason = ExcessiveViolations nat | ManualReason string

datatype message =
    TemporarilyBlocked reason int
  | RateLimitExceeded int int int

record rate_limiter =
  request_counts :: "string \<Rightarrow> datetime list"
  limits :: "string \<rightharpoonup> (int \<times> int)"
  blacklist :: "string \<rightharpoonup> (datetime \<times> reason)"

definition init_limits :: "string \<rightharpoonup> (int \<times> int)" where
  "init_limits =
     [''chat'' \<mapsto> (20, 60), ''upload'' \<mapsto> (10, 60), ''voice'' \<mapsto> (5, 60),
      ''login'' \<mapsto> (5, 300), ''register'' \<mapsto> (3, 3600), ''config_update'' \<mapsto> (10, 60),
      ''search'' \<mapsto> (30, 60), ''api_default'' \<mapsto> (100, 60)]"

definition init_rate_limiter :: rate_limiter where
  "init_rate_limiter =
     \<lparr>request_counts = (\<lambda>_. []), limits = init_limits, blacklist = Map.empty\<rparr>"

definition limits_get :: "rate_limiter \<Rightarrow> string \<Rightarrow> py_error + (int \<times> int)" where
  \<comment> \<open>\<open>self.limits.get(operation, self.limits["api_default"])\<close>: the default is
      evaluated first, whether or not the operation has a rule of its own.\<close>
  "limits_get rl operation =
     (case limits rl ''api_default'' of
        None \<Rightarrow> Inl KeyError
      | Some d \<Rightarrow> (case limits rl operation of None \<Rightarrow> Inr d | Some l \<Rightarrow> Inr l))"

definition rl_key :: "string \<Rightarrow> string \<Rightarrow> string" where
  "rl_key user_id operation = user_id @ '':'' @ operation"

definition check_blacklist_trigger :: "rate_limiter \<Rightarrow> string \<Rightarrow> datetime \<Rightarrow> rate_limiter" where
  "check_blacklist_trigger rl user_id now =
     (let violation_key = rl_key user_id ''violations'';
          cutoff = now - td_of_minutes 10;
          vs = filter (\<lambda>ts. ts > cutoff) (request_counts rl violation_key) @ [now];
          rl1 = rl\<lparr>request_counts := (request_counts rl)(violation_key := vs)\<rparr>;
          violation_count = length vs
      in if violation_count \<ge> 5
         then rl1\<lparr>blacklist := (blacklist rl1)(user_id \<mapsto>
                 (now + td_of_minutes 30, ExcessiveViolations violation_count))\<rparr>
         else rl1)"

text \<open>
  \<open>check_rate_limit\<close> returns the limiter as the call leaves it together with either
  the exception raised or the returned pair. Every \<open>datetime.now()\<close> of one call reads
  the same instant \<open>now\<close>.
\<close>

definition check_window ::
  "rate_limiter \<Rightarrow> string \<Rightarrow> string \<Rightarrow> int \<Rightarrow> datetime
     \<Rightarrow> (py_error + (bool \<times> message option)) \<times> rate_limiter" where
  "check_window rl user_id operation cost now =
     (case limits_get rl operation of
        Inl e \<Rightarrow> (Inl e, rl)
      | Inr (limit_count, limit_seconds) \<Rightarrow>
          (let key = rl_key user_id operation;
               cutoff_time = now - td_of_seconds limit_seconds;
               kept = filter (\<lambda>ts. ts > cutoff_time) (request_counts rl key);
               rl1 = rl\<lparr>request_counts := (request_counts rl)(key := kept)\<rparr>;
               current_count = int (length kept)
           in if current_count + cost > limit_count
              then (case kept of
                      [] \<Rightarrow> (Inl IndexError, rl1)
                    | oldest # _ \<Rightarrow>
                        (let retry_after = limit_seconds - td_seconds (now - oldest);
                             rl2 = check_blacklist_trigger rl1 user_id now
                         in (Inr (False, Some (RateLimitExceeded limit_count limit_seconds retry_after)),
                             rl2)))
              else (Inr (True, None),
                    rl1\<lparr>request_counts :=
                          (request_counts rl1)(key := kept @ replicate (nat cost) now)\<rparr>)))"

definition check_rate_limit ::
  "rate_limiter \<Rightarrow> string \<Rightarrow> string \<Rightarrow> int \<Rightarrow> datetime
     \<Rightarrow> (py_error + (bool \<times> message option)) \<times> rate_limiter" where
  "check_rate_limit rl user_id operation cost now =
     (case blacklist rl user_id of
        Some (blocked_until, reason) \<Rightarrow>
          if now < blocked_until
          then (Inr (False, Some (TemporarilyBlocked reason (td_seconds (blocked_until - now)))), rl)
          else check_window (rl\<lparr>blacklist := (blacklist rl)(user_id := None)\<rparr>)
                 user_id operation cost now
      | None \<Rightarrow> check_window rl user_id operation cost now)"

text \<open>A sequence of calls with cost 1 by one user on one operation, at the given instants.\<close>

fun run_calls ::
  "rate_limiter \<Rightarrow> string \<Rightarrow> string \<Rightarrow> datetime list
     \<Rightarrow> (py_error + (bool \<times> message option)) list \<times> rate_limiter" where
  "run_calls rl user_id operation [] = ([], rl)"
| "run_calls rl user_id operation (t # ts) =
     (case check_rate_limit rl user_id operation 1 t of
        (r, rl1) \<Rightarrow> (case run_calls rl1 user_id operation ts of
                       (rs, rl2) \<Rightarrow> (r # rs, rl2)))"


section \<open>Vector store (app/services/custom\_rag.py, class CustomVectorDB)\<close>

text \<open>
  The two tables of \<open>_init_db\<close>. Rows are kept in rowid order. Both primary keys are
  AUTOINCREMENT, so the store remembers the largest rowid ever used of each table.
  \<open>file_hash\<close> is the MD5 digest of the file name, kept symbolic: two digests are equal
  exactly when the names are. The element type \<open>'f\<close> of an embedding stands for float32.
\<close>

datatype md5_digest = MD5 string

record document =
  doc_id :: int
  filename :: string
  file_hash :: md5_digest

record 'f chunk =
  chunk_id :: int
  document_id :: int
  conversation_id :: "int option"
  chunk_text :: string
  chunk_index :: nat
  embedding :: "'f list"

record 'f vector_db =
  documents :: "document list"
  chunks :: "'f chunk list"
  documents_seq :: int
  chunks_seq :: int



text \<open>
  The NumPy operations \<open>search\<close> relies on are parameters: \<open>cos_sim q e\<close> is the entry
  of \<open>np.dot(M, q) / (norms * query_norm + 1e-8)\<close> for a row with embedding \<open>e\<close>, in a
  linearly ordered type \<open>'s\<close> of scores; \<open>argsort\<close> and \<open>argpartition\<close> return index
  lists. Indexing with an index out of range raises IndexError.
\<close>

record ('f, 's) numpy =
  cos_sim :: "'f list \<Rightarrow> 'f list \<Rightarrow> 's"
  argsort :: "'s list \<Rightarrow> nat list"
  argpartition :: "'s list \<Rightarrow> nat \<Rightarrow> nat list"

definition py_getitem :: "'a list \<Rightarrow> nat \<Rightarrow> py_error + 'a" where
  "py_getitem xs i = (if i < length xs then Inr (xs ! i) else Inl IndexError)"

fun gather :: "'a list \<Rightarrow> nat list \<Rightarrow> py_error + 'a list" where
  "gather xs [] = Inr []"
| "gather xs (i # is) =
     (case py_getitem xs i of
        Inl e \<Rightarrow> Inl e
      | Inr x \<Rightarrow> (case gather xs is of Inl e \<Rightarrow> Inl e | Inr ys \<Rightarrow> Inr (x # ys)))"

datatype sql = SelectChunks int int

definition select_chunks :: "'f vector_db \<Rightarrow> int \<Rightarrow> int \<Rightarrow> 'f chunk list" where
  \<comment> \<open>\<open>SELECT ... WHERE conversation_id = ? AND conversation_id IS NOT NULL LIMIT ?\<close>,
      rows visited in rowid order.\<close>
  "select_chunks db conv_id limit =
     take (nat limit) (filter (\<lambda>ch. conversation_id ch = Some conv_id) (chunks db))"

definition top_indices :: "('f, 's) numpy \<Rightarrow> 's list \<Rightarrow> int \<Rightarrow> py_error + nat list" where
  \<comment> \<open>\<open>np.argpartition(similarities, -top_k)[-top_k:]\<close>, sorted by \<open>argsort\<close> and
      reversed; or \<open>np.argsort(similarities)[::-1]\<close>. A negative \<open>kth\<close> counts from the
      end, a \<open>kth\<close> out of bounds raises ValueError.\<close>
  "top_indices np similarities top_k =
     (let n = int (length similarities)
      in if n > top_k
         then (let kth = (if - top_k < 0 then - top_k + n else - top_k)
               in if kth < 0 \<or> kth \<ge> n then Inl ValueError
                  else (let part = argpartition np similarities (nat kth);
                            start = (if - top_k < 0 then max 0 (- top_k + int (length part))
                                     else - top_k);
                            top = drop (nat start) part
                        in case gather similarities top of
                             Inl e \<Rightarrow> Inl e
                           | Inr sub \<Rightarrow>
                               (case gather top (argsort np sub) of
                                  Inl e \<Rightarrow> Inl e
                                | Inr sorted_top \<Rightarrow> Inr (rev sorted_top))))
         else Inr (rev (argsort np similarities)))"

definition search_hits ::
  "('f, 's) numpy \<Rightarrow> 'f vector_db \<Rightarrow> 'f list \<Rightarrow> int \<Rightarrow> int
     \<Rightarrow> py_error + ('f chunk \<times> 's) list" where
  \<comment> \<open>The rows behind the result of a search with a conversation id, in rank order,
      each with its similarity. \<open>np.vstack\<close> raises ValueError on rows of different
      dimension, \<open>np.dot\<close> on a query of another dimension.\<close>
  "search_hits np db query_embedding top_k conv_id =
     (let limit = min 500 (max (top_k * 50) 100);
          rows = select_chunks db conv_id limit
      in if rows = [] then Inr []
         else if \<not> list_all (\<lambda>ch. length (embedding ch) = length (embedding (hd rows))) rows
         then Inl ValueError
         else if length (embedding (hd rows)) \<noteq> length query_embedding
         then Inl ValueError
         else (let similarities = map (\<lambda>ch. cos_sim np query_embedding (embedding ch)) rows
               in case top_indices np similarities top_k of
                    Inl e \<Rightarrow> Inl e
                  | Inr idx \<Rightarrow> gather (zip rows similarities) idx))"

definition search ::
  "('f, 's) numpy \<Rightarrow> 'f vector_db \<Rightarrow> 'f list \<Rightarrow> int \<Rightarrow> int option
     \<Rightarrow> sql list \<times> (py_error + (string \<times> 's) list)" where
  \<comment> \<open>The statements executed on the cursor, and the exception or the returned list
      \<open>[(texts[i], float(similarities[i])) for i in top_indices]\<close>.\<close>
  "search np db query_embedding top_k conv_id =
     (case conv_id of
        None \<Rightarrow> ([], Inr [])
      | Some c \<Rightarrow>
          ([SelectChunks c (min 500 (max (top_k * 50) 100))],
           map_sum id (map (\<lambda>(ch, s). (chunk_text ch, s)))
             (search_hits np db query_embedding top_k c)))"

text \<open>
  An instance of the NumPy parameters for evaluation: integer embeddings with the dot
  product as score, and a stable sort for both \<open>argsort\<close> and \<open>argpartition\<close>.
\<close>

definition stable_argsort :: "'s::linorder list \<Rightarrow> nat list" where
  "stable_argsort xs = sort_key (\<lambda>i. xs ! i) [0..<length xs]"

definition np_stable :: "(int, int) numpy" where
  "np_stable = \<lparr>cos_sim = (\<lambda>q e. sum_list (map2 (*) e q)),
                argsort = stable_argsort,
                argpartition = (\<lambda>xs kth. stable_argsort xs)\<rparr>"


definition chunk1 :: "int chunk" where
  "chunk1 = \<lparr>chunk_id = 1, document_id = 1, conversation_id = Some 7,
             chunk_text = ''first'', chunk_index = 0, embedding = [1]\<rparr>"

definition chunk2 :: "int chunk" where
  "chunk2 = \<lparr>chunk_id = 2, document_id = 1, conversation_id = Some 7,
             chunk_text = ''second'', chunk_index = 1, embedding = [1]\<rparr>"

definition chunk3 :: "int chunk" where
  "chunk3 = \<lparr>chunk_id = 3, document_id = 2, conversation_id = Some 8,
             chunk_text = ''other'', chunk_index = 0, embedding = [5]\<rparr>"

definition chunk4 :: "int chunk" where
  "chunk4 = \<lparr>chunk_id = 4, document_id = 3, conversation_id = None,
             chunk_text = ''orphan'', chunk_index = 0, embedding = [9]\<rparr>"

definition example_db :: "int vector_db" where
  "example_db =
     \<lparr>documents = [\<lparr>doc_id = 1, filename = ''a.pdf'', file_hash = MD5 ''a.pdf''\<rparr>,
                   \<lparr>doc_id = 2, filename = ''b.pdf'', file_hash = MD5 ''b.pdf''\<rparr>,
                   \<lparr>doc_id = 3, filename = ''c.pdf'', file_hash = MD5 ''c.pdf''\<rparr>],
      chunks = [chunk1, chunk2, chunk3, chunk4],
      documents_seq = 3, chunks_seq = 4\<rparr>"


section \<open>Semantic cache (app/core/semantic\_cache.py, app/services/cached\_rag.py)\<close>














section \<open>Relational store (app/core/database.py)\<close>

text \<open>
  A connection is the set of pragmas in force on it. \<open>sqlite3.connect\<close> gives SQLite's
  defaults, under which foreign-key constraints are not enforced; the pool of
  \<open>SQLiteConnectionPool.__init__\<close> then executes four pragmas on each connection.
\<close>

datatype pragma =
    JournalMode string
  | Synchronous string
  | CacheSize int
  | TempStore string
  | ForeignKeys bool

record connection =
  journal_mode :: string
  synchronous :: string
  cache_size :: int
  temp_store :: string
  foreign_keys :: bool

definition sqlite3_connect :: connection where
  "sqlite3_connect = \<lparr>journal_mode = ''delete'', synchronous = ''FULL'', cache_size = -2000,
                       temp_store = ''DEFAULT'', foreign_keys = False\<rparr>"

fun execute_pragma :: "pragma \<Rightarrow> connection \<Rightarrow> connection" where
  "execute_pragma (JournalMode m) conn = conn\<lparr>journal_mode := m\<rparr>"
| "execute_pragma (Synchronous m) conn = conn\<lparr>synchronous := m\<rparr>"
| "execute_pragma (CacheSize n) conn = conn\<lparr>cache_size := n\<rparr>"
| "execute_pragma (TempStore m) conn = conn\<lparr>temp_store := m\<rparr>"
| "execute_pragma (ForeignKeys b) conn = conn\<lparr>foreign_keys := b\<rparr>"

definition pool_pragmas :: "pragma list" where
  "pool_pragmas = [JournalMode ''WAL'', Synchronous ''NORMAL'', CacheSize (- 64000),
                   TempStore ''MEMORY'']"

definition pool_connection :: connection where
  "pool_connection = fold execute_pragma pool_pragmas sqlite3_connect"

definition connection_pool :: "nat \<Rightarrow> connection list" where
  "connection_pool pool_size = replicate pool_size pool_connection"

text \<open>
  The tables \<open>conversations\<close>, \<open>messages\<close> and \<open>user_documents\<close> of
  \<open>init_database\<close>, rows in rowid order, with the AUTOINCREMENT counters of the first
  two. \<open>CURRENT_TIMESTAMP\<close> is the instant passed to each operation. Each function below
  runs in its own \<open>with get_db_connection()\<close> block: it commits when the block ends and
  rolls back, leaving the database as it was, when a statement raises.
\<close>

record conversation_row =
  conv_row_id :: int
  conv_user_id :: int
  title :: string
  conv_created_at :: int
  updated_at :: int

record message_row =
  msg_id :: int
  msg_conversation_id :: int
  role :: string
  content :: string
  msg_created_at :: int

record user_document_row =
  ud_id :: int
  ud_user_id :: int
  ud_conversation_id :: "int option"
  ud_filename :: string
  ud_file_path :: string

record database =
  conversations :: "conversation_row list"
  messages :: "message_row list"
  user_documents :: "user_document_row list"
  conversations_seq :: int
  messages_seq :: int

datatype db_stmt =
    InsertConversation int
  | InsertMessage int string
  | UpdateConversationTimestamp int
  | DeleteConversation int int
  | Commit
  | Rollback

definition delete_conversation :: "connection \<Rightarrow> database \<Rightarrow> int \<Rightarrow> int \<Rightarrow> bool \<times> database" where
  \<comment> \<open>\<open>DELETE FROM conversations WHERE id = ? AND user_id = ?\<close>; the \<open>ON DELETE CASCADE\<close>
      clauses of \<open>messages\<close> and \<open>user_documents\<close> act only on a connection that
      enforces foreign keys.\<close>
  "delete_conversation conn db cid user_id =
     (let hit = (\<lambda>c. conv_row_id c = cid \<and> conv_user_id c = user_id);
          success = (filter hit (conversations db) \<noteq> []);
          db1 = db\<lparr>conversations := filter (\<lambda>c. \<not> hit c) (conversations db)\<rparr>;
          db2 = (if success \<and> foreign_keys conn
                 then db1\<lparr>messages :=
                            filter (\<lambda>m. msg_conversation_id m \<noteq> cid) (messages db1),
                          user_documents :=
                            filter (\<lambda>d. ud_conversation_id d \<noteq> Some cid)
                              (user_documents db1)\<rparr>
                 else db1)
      in (success, db2))"






definition example_database :: database where
  "example_database =
     \<lparr>conversations = [\<lparr>conv_row_id = 5, conv_user_id = 1, title = ''t'', conv_created_at = 10,
                         updated_at = 10\<rparr>],
      messages = [\<lparr>msg_id = 1, msg_conversation_id = 5, role = ''user'', content = ''hi'',
                    msg_created_at = 10\<rparr>],
      user_documents = [],
      conversations_seq = 5, messages_seq = 1\<rparr>"


section \<open>Error sanitizer (app/core/main.py, sanitize\_error\_message)\<close>
















section \<open>Rate limiter: results\<close>

lemma init_limits_voice: "limits_get init_rate_limiter ''voice'' = Inr (5, 60)"
  by (simp add: limits_get_def init_rate_limiter_def init_limits_def)

text \<open>
  C10. The claim is that \<open>check_rate_limit\<close> returns a pair for every cost of at least 1,
  also when the cost alone exceeds the limit and no timestamp lies in the window. On a
  fresh limiter, operation \<open>voice\<close> (limit 5) and cost 6, the denied branch reads
  \<open>self.request_counts[key][0]\<close> of an empty list: the call raises IndexError.
\<close>

theorem check_rate_limit_cost_over_limit_raises:
  "fst (check_rate_limit init_rate_limiter ''u'' ''voice'' 6 0) = Inl IndexError"
proof -
  have b: "blacklist init_rate_limiter ''u'' = None"
    by (simp add: init_rate_limiter_def)
  have r: "request_counts init_rate_limiter (rl_key ''u'' ''voice'') = []"
    by (simp add: init_rate_limiter_def)
  show ?thesis
    by (simp add: check_rate_limit_def check_window_def b r init_limits_voice)
qed

lemma td_seconds_nonneg: "0 \<le> td_seconds d"
  by (simp add: td_seconds_def pos_imp_zdiv_nonneg_iff)

lemma allowed_step:
  assumes "limits_get rl operation = Inr (L, W)"
    and "blacklist rl user_id = None"
    and "filter (\<lambda>x. x > t - td_of_seconds W) (request_counts rl (rl_key user_id operation)) = pre"
    and "int (length pre) + 1 \<le> L"
  shows "check_rate_limit rl user_id operation 1 t =
           (Inr (True, None),
            rl\<lparr>request_counts := (request_counts rl)(rl_key user_id operation := pre @ [t])\<rparr>)"
  using assms by (simp add: check_rate_limit_def check_window_def)

lemma denied_step:
  assumes "limits_get rl operation = Inr (L, W)"
    and "blacklist rl user_id = None"
    and "filter (\<lambda>x. x > t - td_of_seconds W) (request_counts rl (rl_key user_id operation)) = oldest # rest"
    and "int (length (oldest # rest)) + 1 > L"
  shows "fst (check_rate_limit rl user_id operation 1 t) =
           Inr (False, Some (RateLimitExceeded L W (W - td_seconds (t - oldest))))"
  using assms by (simp add: check_rate_limit_def check_window_def Let_def)

lemma run_calls_append:
  "run_calls rl u operation (xs @ ys) =
     (case run_calls rl u operation xs of
        (rs, rl1) \<Rightarrow> (case run_calls rl1 u operation ys of (rs', rl2) \<Rightarrow> (rs @ rs', rl2)))"
  by (induction xs arbitrary: rl) (auto split: prod.splits)

lemma allowed_run:
  assumes "limits_get rl operation = Inr (L, W)"
    and "blacklist rl user_id = None"
    and "\<forall>t\<in>set ts. filter (\<lambda>x. x > t - td_of_seconds W) (request_counts rl (rl_key user_id operation)) = pre"
    and "\<forall>a\<in>set ts. \<forall>b\<in>set ts. b - td_of_seconds W < a"
    and "int (length pre) + int (length ts) \<le> L"
  shows "\<exists>rl'. run_calls rl user_id operation ts = (replicate (length ts) (Inr (True, None)), rl')
           \<and> limits_get rl' operation = Inr (L, W)
           \<and> blacklist rl' user_id = None
           \<and> (ts \<noteq> [] \<longrightarrow> request_counts rl' (rl_key user_id operation) = pre @ ts)
           \<and> (ts = [] \<longrightarrow> rl' = rl)"
  using assms
proof (induction ts arbitrary: rl pre)
  case Nil
  then show ?case by simp
next
  case (Cons t ts)
  let ?k = "rl_key user_id operation"
  let ?rl1 = "rl\<lparr>request_counts := (request_counts rl)(?k := pre @ [t])\<rparr>"
  have f: "filter (\<lambda>x. x > t - td_of_seconds W) (request_counts rl ?k) = pre"
    using Cons.prems(3) by simp
  have step: "check_rate_limit rl user_id operation 1 t = (Inr (True, None), ?rl1)"
    using allowed_step [OF Cons.prems(1) Cons.prems(2) f] Cons.prems(5) by simp
  have l1: "limits_get ?rl1 operation = Inr (L, W)"
    using Cons.prems(1) by (simp add: limits_get_def cong: option.case_cong)
  have b1: "blacklist ?rl1 user_id = None"
    using Cons.prems(2) by simp
  have live: "\<forall>t'\<in>set ts. filter (\<lambda>x. x > t' - td_of_seconds W) (request_counts ?rl1 ?k) = pre @ [t]"
  proof
    fix t' assume t': "t' \<in> set ts"
    have "filter (\<lambda>x. x > t' - td_of_seconds W) (request_counts rl ?k) = pre"
      using Cons.prems(3) t' by simp
    then have "\<forall>x\<in>set pre. x > t' - td_of_seconds W"
      by auto
    then have "filter (\<lambda>x. x > t' - td_of_seconds W) pre = pre"
      by (simp add: filter_id_conv)
    moreover have "t' - td_of_seconds W < t"
      using Cons.prems(4) t' by simp
    ultimately show "filter (\<lambda>x. x > t' - td_of_seconds W) (request_counts ?rl1 ?k) = pre @ [t]"
      by simp
  qed
  have pw: "\<forall>a\<in>set ts. \<forall>b\<in>set ts. b - td_of_seconds W < a"
    using Cons.prems(4) by simp
  have len: "int (length (pre @ [t])) + int (length ts) \<le> L"
    using Cons.prems(5) by simp
  from Cons.IH [OF l1 b1 live pw len] obtain rl' where
    r: "run_calls ?rl1 user_id operation ts = (replicate (length ts) (Inr (True, None)), rl')"
    and l': "limits_get rl' operation = Inr (L, W)"
    and b': "blacklist rl' user_id = None"
    and c': "ts \<noteq> [] \<longrightarrow> request_counts rl' ?k = (pre @ [t]) @ ts"
    and e': "ts = [] \<longrightarrow> rl' = ?rl1"
    by blast
  have "run_calls rl user_id operation (t # ts) = (replicate (length (t # ts)) (Inr (True, None)), rl')"
    using step r by simp
  moreover have "request_counts rl' ?k = pre @ t # ts"
    using c' e' by (cases "ts = []") simp_all
  ultimately show ?case using l' b' by simp
qed

text \<open>
  C6. Sliding-window rate limiting is exact. The limiter has the rule \<open>(L, W)\<close> for the
  operation with \<open>L \<ge> 1\<close>, the user is not blacklisted, and no stored timestamp of the
  key lies in the window of the first call (the window starts empty). The user makes
  \<open>L + 1\<close> calls of cost 1 at non-decreasing instants, the last less than \<open>W\<close> seconds
  after the first. Then the first \<open>L\<close> calls return \<open>(True, None)\<close>, the last is denied,
  and the retry-after value of the denial is at most \<open>W\<close>.
\<close>

theorem rate_limit_exact:
  assumes "limits_get rl operation = Inr (L, W)"
    and "1 \<le> L"
    and "blacklist rl user_id = None"
    and "\<forall>x\<in>set (request_counts rl (rl_key user_id operation)). x \<le> hd instants - td_of_seconds W"
    and "sorted instants"
    and "length instants = nat L + 1"
    and "last instants - hd instants < td_of_seconds W"
  shows "\<exists>retry_after.
           fst (run_calls rl user_id operation instants) =
             replicate (nat L) (Inr (True, None)) @
             [Inr (False, Some (RateLimitExceeded L W retry_after))]
           \<and> retry_after \<le> W"
proof -
  let ?k = "rl_key user_id operation"
  let ?W = "td_of_seconds W"
  obtain ts tl where instants: "instants = ts @ [tl]"
    using assms(6) by (metis Suc_eq_plus1 length_Suc_conv_rev)
  have lts: "length ts = nat L" using assms(6) instants by simp
  then have ne: "ts \<noteq> []" using assms(2) by auto
  have hd_times: "hd instants = hd ts" using ne instants by simp
  have lo: "\<forall>a\<in>set instants. hd instants \<le> a"
    using assms(5) by (cases instants) auto
  have hi: "\<forall>a\<in>set instants. a \<le> tl"
    using assms(5) instants by (auto simp: sorted_append)
  have span: "tl - hd instants < ?W" using assms(7) instants by simp
  have stale: "\<forall>t\<in>set ts. filter (\<lambda>x. x > t - ?W) (request_counts rl ?k) = []"
  proof
    fix t assume "t \<in> set ts"
    then have "hd instants \<le> t" using lo instants by simp
    then show "filter (\<lambda>x. x > t - ?W) (request_counts rl ?k) = []"
      using assms(4) by (fastforce simp: filter_empty_conv)
  qed
  have pw: "\<forall>a\<in>set ts. \<forall>b\<in>set ts. b - ?W < a"
  proof (intro ballI)
    fix a b assume "a \<in> set ts" "b \<in> set ts"
    then have "hd instants \<le> a" "b \<le> tl" using lo hi instants by simp_all
    then show "b - ?W < a" using span by linarith
  qed
  have len: "int (length ([]::datetime list)) + int (length ts) \<le> L"
    using lts assms(2) by simp
  from allowed_run [OF assms(1) assms(3) stale pw len] ne obtain rl' where
    r: "run_calls rl user_id operation ts = (replicate (length ts) (Inr (True, None)), rl')"
    and l': "limits_get rl' operation = Inr (L, W)"
    and b': "blacklist rl' user_id = None"
    and c': "request_counts rl' ?k = ts"
    by auto
  obtain oldest rest where ts: "ts = oldest # rest" using ne by (cases ts) auto
  have "\<forall>x\<in>set ts. tl - ?W < x"
  proof
    fix x assume "x \<in> set ts"
    then have "hd instants \<le> x" using lo instants by simp
    then show "tl - ?W < x" using span by linarith
  qed
  then have f: "filter (\<lambda>x. x > tl - ?W) (request_counts rl' ?k) = oldest # rest"
    using c' ts by (simp add: filter_id_conv)
  have over: "int (length (oldest # rest)) + 1 > L"
    using lts ts by simp
  have last: "fst (check_rate_limit rl' user_id operation 1 tl) =
           Inr (False, Some (RateLimitExceeded L W (W - td_seconds (tl - oldest))))"
    by (rule denied_step [OF l' b' f over])
  obtain res rl2 where c: "check_rate_limit rl' user_id operation 1 tl = (res, rl2)"
    by (cases "check_rate_limit rl' user_id operation 1 tl")
  have res: "res = Inr (False, Some (RateLimitExceeded L W (W - td_seconds (tl - oldest))))"
    using last c by simp
  have "fst (run_calls rl user_id operation instants) =
          replicate (nat L) (Inr (True, None)) @
          [Inr (False, Some (RateLimitExceeded L W (W - td_seconds (tl - oldest))))]"
    by (simp add: instants run_calls_append r c res lts)
  moreover have "W - td_seconds (tl - oldest) \<le> W"
    using td_seconds_nonneg [of "tl - oldest"] by simp
  ultimately show ?thesis by blast
qed

theorem rate_limit_exact_witness:
  "limits_get init_rate_limiter ''register'' = Inr (3, 3600)
   \<and> sorted [0, 1000000, 2000000, 3000000 :: int]
   \<and> (\<exists>retry_after.
         fst (run_calls init_rate_limiter ''u'' ''register'' [0, 1000000, 2000000, 3000000]) =
           replicate (nat 3) (Inr (True, None)) @
           [Inr (False, Some (RateLimitExceeded 3 3600 retry_after))]
         \<and> retry_after \<le> 3600)"
proof -
  have h1: "limits_get init_rate_limiter ''register'' = Inr (3, 3600)"
    by (simp add: limits_get_def init_rate_limiter_def init_limits_def)
  have h2: "(1::int) \<le> 3" by simp
  have h3: "blacklist init_rate_limiter ''u'' = None"
    by (simp add: init_rate_limiter_def)
  have h4: "\<forall>x\<in>set (request_counts init_rate_limiter (rl_key ''u'' ''register'')).
              x \<le> hd [0, 1000000, 2000000, 3000000] - td_of_seconds 3600"
    by (simp add: init_rate_limiter_def)
  have h5: "sorted [0, 1000000, 2000000, 3000000 :: int]" by simp
  have h6: "length [0, 1000000, 2000000, 3000000 :: int] = nat 3 + 1" by simp
  have h7: "last [0, 1000000, 2000000, 3000000] - hd [0, 1000000, 2000000, 3000000]
              < td_of_seconds 3600"
    by (simp add: td_of_seconds_def)
  from rate_limit_exact [OF h1 h2 h3 h4 h5 h6 h7] h1 h5 show ?thesis by blast
qed

section \<open>Vector store: results\<close>

lemma gather_in_range:
  assumes "\<forall>i\<in>set idx. i < length xs"
  shows "gather xs idx = Inr (map (\<lambda>i. xs ! i) idx)"
  using assms by (induction idx) (simp_all add: py_getitem_def)

lemma gather_Inr_D:
  assumes "gather xs idx = Inr ys"
  shows "(\<forall>i\<in>set idx. i < length xs) \<and> ys = map (\<lambda>i. xs ! i) idx"
  using assms
proof (induction idx arbitrary: ys)
  case Nil
  then show ?case by simp
next
  case (Cons i idx)
  from Cons.prems obtain zs where i: "i < length xs" and g: "gather xs idx = Inr zs"
    and ys: "ys = xs ! i # zs"
    by (auto simp: py_getitem_def split: if_splits sum.splits)
  from Cons.IH [OF g] i ys show ?case by simp
qed

lemma gather_Inr_iff:
  "gather xs idx = Inr ys \<longleftrightarrow> (\<forall>i\<in>set idx. i < length xs) \<and> ys = map (\<lambda>i. xs ! i) idx"
  using gather_in_range gather_Inr_D by fastforce

lemma gather_subset:
  assumes "gather xs idx = Inr ys"
  shows "set ys \<subseteq> set xs"
  using assms by (auto simp: gather_Inr_iff)

lemma select_chunks_member:
  assumes "ch \<in> set (select_chunks db conv_id limit)"
  shows "ch \<in> set (chunks db) \<and> conversation_id ch = Some conv_id"
proof -
  from assms have "ch \<in> set (filter (\<lambda>ch. conversation_id ch = Some conv_id) (chunks db))"
    unfolding select_chunks_def by (rule in_set_takeD)
  then show ?thesis by simp
qed

lemma search_hits_from_rows:
  assumes "search_hits np db q top_k c = Inr hits"
  shows "fst ` set hits \<subseteq> set (select_chunks db c (min 500 (max (top_k * 50) 100)))"
proof -
  let ?rows = "select_chunks db c (min 500 (max (top_k * 50) 100))"
  let ?sims = "map (\<lambda>ch. cos_sim np q (embedding ch)) ?rows"
  show ?thesis
  proof (cases "?rows = []")
    case True
    with assms show ?thesis by (simp add: search_hits_def Let_def)
  next
    case False
    with assms obtain idx where "gather (zip ?rows ?sims) idx = Inr hits"
      by (auto simp: search_hits_def Let_def split: if_splits sum.splits)
    then have sub: "set hits \<subseteq> set (zip ?rows ?sims)" by (rule gather_subset)
    show ?thesis
    proof
      fix ch assume "ch \<in> fst ` set hits"
      then obtain s where "(ch, s) \<in> set hits" by auto
      with sub have "(ch, s) \<in> set (zip ?rows ?sims)" by blast
      then show "ch \<in> set ?rows" by (rule set_zip_leftD)
    qed
  qed
qed

text \<open>
  C1. Session isolation: whenever \<open>search\<close> is called with a conversation id \<open>c\<close> and
  returns a list, the list is the projection to (text, similarity) of rows of the store
  whose stored \<open>conversation_id\<close> is \<open>c\<close>; no row stored under another id or under NULL
  is behind any returned entry, whatever the embeddings, the query and \<open>top_k\<close>.
\<close>

theorem search_session_isolation:
  assumes "snd (search np db q top_k (Some c)) = Inr res"
  shows "\<exists>hits. search_hits np db q top_k c = Inr hits
           \<and> res = map (\<lambda>(ch, s). (chunk_text ch, s)) hits
           \<and> (\<forall>(ch, s)\<in>set hits. ch \<in> set (chunks db) \<and> conversation_id ch = Some c)"
proof -
  from assms obtain hits where h: "search_hits np db q top_k c = Inr hits"
    and r: "res = map (\<lambda>(ch, s). (chunk_text ch, s)) hits"
    by (cases "search_hits np db q top_k c") (auto simp: search_def)
  have "\<forall>(ch, s)\<in>set hits. ch \<in> set (chunks db) \<and> conversation_id ch = Some c"
    using search_hits_from_rows [OF h] select_chunks_member by fastforce
  with h r show ?thesis by blast
qed

theorem search_session_isolation_witness:
  "snd (search np_stable example_db [1] 5 (Some 7)) = Inr [(''second'', 1), (''first'', 1)]
   \<and> (\<exists>hits. search_hits np_stable example_db [1] 5 7 = Inr hits
         \<and> [(''second'', 1), (''first'', 1)] = map (\<lambda>(ch, s). (chunk_text ch, s)) hits
         \<and> (\<forall>(ch, s)\<in>set hits. ch \<in> set (chunks example_db) \<and> conversation_id ch = Some 7))"
proof -
  have h: "snd (search np_stable example_db [1] 5 (Some 7)) = Inr [(''second'', 1), (''first'', 1)]"
    by (simp add: search_def search_hits_def select_chunks_def example_db_def chunk1_def
        chunk2_def chunk3_def chunk4_def np_stable_def top_indices_def stable_argsort_def
        py_getitem_def upt_rec [of 0 "Suc (Suc 0)"] upt_rec [of "Suc 0" "Suc (Suc 0)"])
  from search_session_isolation [OF h] h show ?thesis by blast
qed

text \<open>
  C2. A search without a conversation id returns the empty list for every store, query
  and \<open>top_k\<close>, and executes no statement on the cursor: no chunk is read.
\<close>

theorem search_without_conversation_empty:
  "search np db q top_k None = ([], Inr [])"
  by (simp add: search_def)











section \<open>Semantic cache: results\<close>







section \<open>Relational store: results\<close>

text \<open>
  C5. The claim is that every pooled connection enforces foreign keys, so that
  \<open>delete_conversation\<close> removes the messages of the conversation. The pool executes the
  pragmas journal\_mode, synchronous, cache\_size and temp\_store only, which leaves
  \<open>foreign_keys\<close> off: on a database with conversation 5 of user 1 and one message in it,
  the delete succeeds, the conversation row is gone and the message row remains.
\<close>

theorem delete_conversation_leaves_messages:
  "foreign_keys pool_connection = False
   \<and> delete_conversation pool_connection example_database 5 1 =
       (True, example_database\<lparr>conversations := []\<rparr>)
   \<and> messages (example_database\<lparr>conversations := []\<rparr>) =
       [\<lparr>msg_id = 1, msg_conversation_id = 5, role = ''user'', content = ''hi'',
         msg_created_at = 10\<rparr>]"
  by (simp add: pool_connection_def pool_pragmas_def sqlite3_connect_def
      delete_conversation_def example_database_def)







section \<open>Error sanitizer: results\<close>

































end
